theory Spec2Isabelle
  imports Complex_Main "HOL-Library.Multiset"
begin

section \<open>Rainbow Snake Game: the SnakeGame component\<close>

text \<open>
  The component keeps its state in React hooks. A handler reads the snapshot
  \<^verbatim>\<open>gameStateRef.current\<close>, which an effect rewrites after every render, and
  schedules updates with the setters; the updates are applied together at the next
  render. Each handler is modelled as a function from the snapshot to the state after
  that render.
\<close>

subsection \<open>Data\<close>

text \<open>Game constants.\<close>

definition gridSize :: int where
  "gridSize = 20"

definition initialSpeed :: int where
  "initialSpeed = 165"

text \<open>A grid cell \<^verbatim>\<open>{ x, y }\<close>.\<close>

record cell =
  x :: int
  y :: int

text \<open>The four strings the \<^verbatim>\<open>direction\<close> state ever holds.\<close>

datatype direction = UP | DOWN | LEFT | RIGHT

text \<open>The four audio references handed to \<^verbatim>\<open>playSound\<close>.\<close>

datatype sound = eatSound | levelUpSound | gameOverSound | gameStartSound

text \<open>An entry \<^verbatim>\<open>{ name, score }\<close> of the high-score list.\<close>

record scoreEntry =
  name :: string
  score :: int

text \<open>
  The \<^verbatim>\<open>useState\<close> cells of the component. \<open>storage\<close> is the value kept under
  the key \<^verbatim>\<open>snakeHighScores\<close> of \<^verbatim>\<open>localStorage\<close>: \<open>None\<close> when the key is
  absent, \<open>Some hs\<close> when it holds \<^verbatim>\<open>JSON.stringify(hs)\<close>. \<open>played\<close> is the log
  of the sounds started so far. The flag of the level-up animation only drives the
  display and is left out.
\<close>

record game =
  snake :: "cell list"
  food :: cell
  direction :: direction
  gameOver :: bool
  score :: int
  highScores :: "scoreEntry list"
  gameStarted :: bool
  speed :: int
  paused :: bool
  level :: int
  playerName :: string
  showNameInput :: bool
  soundEnabled :: bool
  storage :: "scoreEntry list option"
  played :: "sound list"

text \<open>
  The randomness of one call of a handler: \<open>rnd k\<close> is the cell
  \<^verbatim>\<open>{ x: Math.floor(Math.random() * gridSize), y: Math.floor(Math.random() * gridSize) }\<close>
  built by the \<open>k\<close>-th invocation of \<^verbatim>\<open>generateFood\<close>.
\<close>

type_synonym draws = "nat \<Rightarrow> cell"

subsection \<open>Sounds\<close>

text \<open>\<^verbatim>\<open>playSound\<close>: starts the sound when sound is enabled.\<close>

definition playSound :: "sound \<Rightarrow> game \<Rightarrow> game" where
  "playSound soundRef g =
     (if soundEnabled g then g\<lparr>played := played g @ [soundRef]\<rparr> else g)"

subsection \<open>Food generation\<close>

text \<open>
  \<^verbatim>\<open>gameStateRef.current.snake.some(segment => segment.x === newFood.x && segment.y === newFood.y)\<close>
\<close>

definition isOnSnake :: "cell \<Rightarrow> cell list \<Rightarrow> bool" where
  "isOnSnake newFood refSnake =
     list_ex (\<lambda>segment. x segment = x newFood \<and> y segment = y newFood) refSnake"

text \<open>
  \<^verbatim>\<open>generateFood\<close> calls itself again when the drawn cell is on the snake and the
  snake is shorter than \<^verbatim>\<open>gridSize * gridSize - 1\<close>. The snake it looks at is
  \<^verbatim>\<open>gameStateRef.current.snake\<close>, the argument \<open>refSnake\<close>. The recursion has no
  other bound, so the function is partial: \<open>None\<close> is a call that never returns a
  cell.
\<close>

partial_function (option) generateFood :: "draws \<Rightarrow> cell list \<Rightarrow> nat \<Rightarrow> cell option" where
  "generateFood rnd refSnake k =
     (if isOnSnake (rnd k) refSnake \<and> int (length refSnake) < gridSize * gridSize - 1
      then generateFood rnd refSnake (Suc k)
      else Some (rnd k))"

subsection \<open>The tick\<close>

text \<open>The \<^verbatim>\<open>switch (state.direction)\<close> of \<^verbatim>\<open>moveSnake\<close>, applied to a copy of the head.\<close>

definition moveHead :: "direction \<Rightarrow> cell \<Rightarrow> cell" where
  "moveHead d head =
     (case d of
        UP \<Rightarrow> head\<lparr>y := (if y head = 0 then gridSize - 1 else y head - 1)\<rparr>
      | DOWN \<Rightarrow> head\<lparr>y := (if y head = gridSize - 1 then 0 else y head + 1)\<rparr>
      | LEFT \<Rightarrow> head\<lparr>x := (if x head = 0 then gridSize - 1 else x head - 1)\<rparr>
      | RIGHT \<Rightarrow> head\<lparr>x := (if x head = gridSize - 1 then 0 else x head + 1)\<rparr>)"

text \<open>
  \<^verbatim>\<open>newSnake.some((segment, index) => index > 0 && segment.x === head.x && segment.y === head.y)\<close>
\<close>

definition collided :: "cell list \<Rightarrow> cell \<Rightarrow> bool" where
  "collided newSnake head =
     list_ex (\<lambda>(index, segment). index > 0 \<and> x segment = x head \<and> y segment = y head)
       (enumerate 0 newSnake)"

text \<open>
  \<^verbatim>\<open>moveSnake\<close>. \<open>state\<close> is \<^verbatim>\<open>gameStateRef.current\<close>; \<^verbatim>\<open>generateFood\<close> is called
  before \<^verbatim>\<open>setSnake\<close> and reads the same snapshot, so it is given \<open>snake state\<close>.
  The snake is never empty in the program; on an empty array the head copy has no
  coordinates, nothing compares equal to it, and \<^verbatim>\<open>pop\<close> leaves the array empty again.
\<close>

definition moveSnake :: "draws \<Rightarrow> game \<Rightarrow> game option" where
  "moveSnake rnd state =
     (case snake state of
        [] \<Rightarrow> Some state
      | first # _ \<Rightarrow>
          (let newSnake = snake state;
               head = moveHead (direction state) first
           in if collided newSnake head
              then Some (playSound gameOverSound (state\<lparr>gameOver := True, showNameInput := True\<rparr>))
              else
                (let ateFood = (x head = x (food state) \<and> y head = y (food state));
                     updatedSnake = head # newSnake
                 in if \<not> ateFood
                    then Some (state\<lparr>snake := butlast updatedSnake\<rparr>)
                    else
                      (case generateFood rnd (snake state) 0 of
                         None \<Rightarrow> None
                       | Some newFood \<Rightarrow>
                           Some (playSound eatSound
                                   (state\<lparr>score := game.score state + 1,
                                          food := newFood,
                                          snake := updatedSnake\<rparr>))))))"

text \<open>
  The game-loop effect is installed only while the game is started, not over and not
  paused; \<open>gameLoop\<close> is one frame of it on which a move is due.
\<close>

definition gameLoop :: "draws \<Rightarrow> game \<Rightarrow> game option" where
  "gameLoop rnd g =
     (if \<not> gameStarted g \<or> gameOver g \<or> paused g then Some g else moveSnake rnd g)"

subsection \<open>Speed and level\<close>

text \<open>\<^verbatim>\<open>Math.round\<close>: the nearest integer, a half rounded up.\<close>

definition jsRound :: "real \<Rightarrow> int" where
  "jsRound r = \<lfloor>r + 1 / 2\<rfloor>"

definition calculateSpeed :: "int \<Rightarrow> int" where
  "calculateSpeed lvl =
     (let maxSpeedReduction = initialSpeed - 70;
          reduction = (of_int lvl - 1) / 9 * of_int maxSpeedReduction
      in jsRound (of_int initialSpeed - reduction))"

text \<open>The effect that follows the score: it recomputes the level and the speed.\<close>

definition levelEffect :: "game \<Rightarrow> game" where
  "levelEffect g =
     (let newLevel = game.score g div 10 + 1;
          clampedLevel = min newLevel 10
      in if clampedLevel \<noteq> level g
         then
           (let g' = g\<lparr>level := clampedLevel, speed := calculateSpeed clampedLevel\<rparr>
            in if level g > 1 \<or> clampedLevel > 1 then playSound levelUpSound g' else g')
         else g)"

subsection \<open>Input handlers\<close>

text \<open>
  \<^verbatim>\<open>handleDirectionChange\<close>, the handler of the on-screen direction buttons.
  \<open>state\<close> is the snapshot; the tests after the first one read the snapshot too.
  (A swipe reaches this handler only through \<^verbatim>\<open>handleSwipe\<close>, which filters it by
  distance and direction first; swipes are not part of this model.)
\<close>

definition handleDirectionChange :: "direction \<Rightarrow> game \<Rightarrow> game" where
  "handleDirectionChange newDir state =
     (let g = (if \<not> gameStarted state \<and> \<not> gameOver state
               then playSound gameStartSound (state\<lparr>gameStarted := True\<rparr>)
               else state)
      in if gameOver state \<or> paused state then g
         else if (newDir = UP \<and> direction state \<noteq> DOWN) \<or>
                 (newDir = DOWN \<and> direction state \<noteq> UP) \<or>
                 (newDir = LEFT \<and> direction state \<noteq> RIGHT) \<or>
                 (newDir = RIGHT \<and> direction state \<noteq> LEFT)
              then g\<lparr>direction := newDir\<rparr>
              else g)"

text \<open>\<^verbatim>\<open>handleKeyPress\<close>; \<open>key\<close> is \<^verbatim>\<open>e.key\<close>.\<close>

definition handleKeyPress :: "string \<Rightarrow> game \<Rightarrow> game" where
  "handleKeyPress key state =
     (let g = (if \<not> gameStarted state \<and> \<not> gameOver state \<and>
                  key \<in> set [''ArrowUp'', ''ArrowDown'', ''ArrowLeft'', ''ArrowRight'']
               then playSound gameStartSound (state\<lparr>gameStarted := True\<rparr>)
               else state)
      in if key = ''p'' \<or> key = ''P''
         then (if gameStarted state \<and> \<not> gameOver state then g\<lparr>paused := \<not> paused g\<rparr> else g)
         else if (key = ''x'' \<or> key = ''X'') \<and>
                 gameStarted state \<and> \<not> gameOver state \<and> \<not> paused state
         then g\<lparr>gameOver := True, showNameInput := True\<rparr>
         else if \<not> gameStarted state \<or> gameOver state \<or> paused state then g
         else if key = ''ArrowUp''
         then (if direction state \<noteq> DOWN then g\<lparr>direction := UP\<rparr> else g)
         else if key = ''ArrowDown''
         then (if direction state \<noteq> UP then g\<lparr>direction := DOWN\<rparr> else g)
         else if key = ''ArrowLeft''
         then (if direction state \<noteq> RIGHT then g\<lparr>direction := LEFT\<rparr> else g)
         else if key = ''ArrowRight''
         then (if direction state \<noteq> LEFT then g\<lparr>direction := RIGHT\<rparr> else g)
         else g)"

text \<open>The key that asks for a direction.\<close>

fun arrowKey :: "direction \<Rightarrow> string" where
  "arrowKey UP = ''ArrowUp''"
| "arrowKey DOWN = ''ArrowDown''"
| "arrowKey LEFT = ''ArrowLeft''"
| "arrowKey RIGHT = ''ArrowRight''"

definition togglePause :: "game \<Rightarrow> game" where
  "togglePause g = (if gameStarted g \<and> \<not> gameOver g then g\<lparr>paused := \<not> paused g\<rparr> else g)"

definition endGame :: "game \<Rightarrow> game" where
  "endGame g =
     (if gameStarted g \<and> \<not> gameOver g \<and> \<not> paused g
      then playSound gameOverSound (g\<lparr>gameOver := True, showNameInput := True\<rparr>)
      else g)"

text \<open>
  \<^verbatim>\<open>resetGame\<close>. Its \<^verbatim>\<open>generateFood()\<close> reads the snake of the snapshot, the one
  of the game that has just ended.
\<close>

definition resetGame :: "draws \<Rightarrow> game \<Rightarrow> game option" where
  "resetGame rnd g =
     (case generateFood rnd (snake g) 0 of
        None \<Rightarrow> None
      | Some newFood \<Rightarrow>
          Some (g\<lparr>snake := [\<lparr>x = 10, y = 10\<rparr>],
                 food := newFood,
                 direction := RIGHT,
                 gameOver := False,
                 score := 0,
                 gameStarted := False,
                 speed := initialSpeed,
                 paused := False,
                 level := 1,
                 playerName := [],
                 showNameInput := False\<rparr>))"

subsection \<open>The score store\<close>

text \<open>
  \<^verbatim>\<open>String.prototype.trim\<close> on names whose characters are below 256: it removes the
  white space and line terminators U+0009 to U+000D, U+0020 and U+00A0 from both ends.
\<close>

definition isWhiteSpace :: "char \<Rightarrow> bool" where
  "isWhiteSpace c = (of_char c \<in> set [9, 10, 11, 12, 13, 32, 160 :: nat])"

definition trim :: "string \<Rightarrow> string" where
  "trim s = rev (dropWhile isWhiteSpace (rev (dropWhile isWhiteSpace s)))"

text \<open>
  \<^verbatim>\<open>Array.prototype.sort\<close> with a comparison function. The language requires the sort
  to be stable and, for a consistent comparison, to order the elements by it; a stable
  sort has one possible result, which this insertion sort computes.
\<close>

fun insertBy :: "('a \<Rightarrow> 'a \<Rightarrow> int) \<Rightarrow> 'a \<Rightarrow> 'a list \<Rightarrow> 'a list" where
  "insertBy cmp a [] = [a]"
| "insertBy cmp a (b # bs) = (if cmp a b \<le> 0 then a # b # bs else b # insertBy cmp a bs)"

definition jsSort :: "('a \<Rightarrow> 'a \<Rightarrow> int) \<Rightarrow> 'a list \<Rightarrow> 'a list" where
  "jsSort cmp xs = foldr (insertBy cmp) xs []"

text \<open>The comparison function \<^verbatim>\<open>(a, b) => b.score - a.score\<close>.\<close>

definition byScore :: "scoreEntry \<Rightarrow> scoreEntry \<Rightarrow> int" where
  "byScore a b = scoreEntry.score b - scoreEntry.score a"

text \<open>The entry \<^verbatim>\<open>{ name, score }\<close> that \<^verbatim>\<open>saveHighScore\<close> builds.\<close>

definition newEntry :: "game \<Rightarrow> scoreEntry" where
  "newEntry g =
     \<lparr>name = (if trim (playerName g) = [] then ''Anonymous'' else trim (playerName g)),
      score = game.score g\<rparr>"

definition saveHighScore :: "game \<Rightarrow> game" where
  "saveHighScore g =
     (let newHighScores = take 5 (jsSort byScore (highScores g @ [newEntry g]))
      in g\<lparr>highScores := newHighScores,
           storage := Some newHighScores,
           showNameInput := False\<rparr>)"

subsection \<open>Events\<close>

text \<open>
  What can happen to the mounted component: a frame of the game loop, a key, one of the
  buttons, an edit of the name field. The name field and the save button are rendered
  while the game is over and the name is asked for, the play-again button while the game
  is over and the name is not asked for.
\<close>

datatype event =
    Frame draws
  | KeyDown string
  | DirectionButton direction
  | PauseButton
  | EndGameButton
  | SoundButton
  | NameChange string
  | SaveScoreButton
  | PlayAgainButton draws

fun handle :: "event \<Rightarrow> game \<Rightarrow> game option" where
  "handle (Frame rnd) g = gameLoop rnd g"
| "handle (KeyDown key) g = Some (handleKeyPress key g)"
| "handle (DirectionButton newDir) g = Some (handleDirectionChange newDir g)"
| "handle PauseButton g = Some (togglePause g)"
| "handle EndGameButton g = Some (endGame g)"
| "handle SoundButton g = Some (g\<lparr>soundEnabled := \<not> soundEnabled g\<rparr>)"
| "handle (NameChange v) g =
     Some (if gameOver g \<and> showNameInput g then g\<lparr>playerName := v\<rparr> else g)"
| "handle SaveScoreButton g =
     Some (if gameOver g \<and> showNameInput g then saveHighScore g else g)"
| "handle (PlayAgainButton rnd) g =
     (if gameOver g \<and> \<not> showNameInput g then resetGame rnd g else Some g)"

text \<open>An event, the render that follows it, and the level effect after the render.\<close>

definition step :: "event \<Rightarrow> game \<Rightarrow> game option" where
  "step e g = map_option levelEffect (handle e g)"

fun run :: "event list \<Rightarrow> game \<Rightarrow> game option" where
  "run [] g = Some g"
| "run (e # es) g = (case step e g of None \<Rightarrow> None | Some g' \<Rightarrow> run es g')"

text \<open>
  The name field has \<^verbatim>\<open>maxLength={15}\<close>: the values its change events report have at
  most 15 characters.
\<close>

fun withinMaxLength :: "event \<Rightarrow> bool" where
  "withinMaxLength (NameChange v) = (length v \<le> 15)"
| "withinMaxLength e = True"

fun isReset :: "event \<Rightarrow> bool" where
  "isReset (PlayAgainButton rnd) = True"
| "isReset e = False"

text \<open>The state of a freshly mounted component with nothing stored.\<close>

definition initialGame :: game where
  "initialGame =
     \<lparr>snake = [\<lparr>x = 10, y = 10\<rparr>],
      food = \<lparr>x = 5, y = 5\<rparr>,
      direction = RIGHT,
      gameOver = False,
      score = 0,
      highScores = [],
      gameStarted = False,
      speed = initialSpeed,
      paused = False,
      level = 1,
      playerName = [],
      showNameInput = False,
      soundEnabled = True,
      storage = None,
      played = []\<rparr>"

subsection \<open>Loading the high scores\<close>

text \<open>
  A value that \<^verbatim>\<open>JSON.parse\<close> returns; \<open>'n\<close> is the type of numbers. An object is
  the list of its properties, read with \<open>map_of\<close>.
\<close>

datatype 'n json =
    JNull
  | JBool bool
  | JNumber 'n
  | JString string
  | JArray "'n json list"
  | JObject "(string \<times> 'n json) list"

text \<open>\<^verbatim>\<open>typeof\<close>.\<close>

fun typeof :: "'n json \<Rightarrow> string" where
  "typeof JNull = ''object''"
| "typeof (JBool b) = ''boolean''"
| "typeof (JNumber n) = ''number''"
| "typeof (JString s) = ''string''"
| "typeof (JArray items) = ''object''"
| "typeof (JObject props) = ''object''"

text \<open>
  \<^verbatim>\<open>key in item\<close> for the keys \<^verbatim>\<open>name\<close> and \<^verbatim>\<open>score\<close> and an item that is an
  object: an array parsed from JSON has neither property, a plain object has the
  properties it was parsed with.
\<close>

fun hasProperty :: "string \<Rightarrow> 'n json \<Rightarrow> bool" where
  "hasProperty key (JObject props) = (map_of props key \<noteq> None)"
| "hasProperty key item = False"

text \<open>\<^verbatim>\<open>typeof item[key]\<close> of such an item; a property that is absent is \<^verbatim>\<open>undefined\<close>.\<close>

fun typeofProperty :: "string \<Rightarrow> 'n json \<Rightarrow> string" where
  "typeofProperty key (JObject props) =
     (case map_of props key of None \<Rightarrow> ''undefined'' | Some v \<Rightarrow> typeof v)"
| "typeofProperty key item = ''undefined''"

text \<open>The test given to \<^verbatim>\<open>parsed.every\<close>.\<close>

definition validItem :: "'n json \<Rightarrow> bool" where
  "validItem item =
     (typeof item = ''object'' \<and> item \<noteq> JNull \<and>
      hasProperty ''name'' item \<and> hasProperty ''score'' item \<and>
      typeofProperty ''score'' item = ''number'')"

text \<open>
  The body of the \<^verbatim>\<open>try\<close> block of the effect that runs on mount. \<open>savedScores\<close>
  is what \<^verbatim>\<open>localStorage.getItem\<close> returns (\<open>None\<close> for \<^verbatim>\<open>null\<close>),
  \<open>JSONparse\<close> is \<^verbatim>\<open>JSON.parse\<close> (\<open>None\<close> when it throws). The result is the list
  given to \<^verbatim>\<open>setHighScores\<close> together with the stored value afterwards, or \<open>Inl\<close>
  for the exception.
\<close>

datatype error = SyntaxError

definition loadBody ::
  "(string \<Rightarrow> 'n json option) \<Rightarrow> string option \<Rightarrow> error + ('n json list \<times> string option)" where
  "loadBody JSONparse savedScores =
     (case savedScores of
        None \<Rightarrow> Inr ([], savedScores)
      | Some text \<Rightarrow>
          if text = [] then Inr ([], savedScores)
          else
            (case JSONparse text of
               None \<Rightarrow> Inl SyntaxError
             | Some parsed \<Rightarrow>
                 (case parsed of
                    JArray items \<Rightarrow>
                      if list_all validItem items then Inr (items, savedScores)
                      else Inr ([], None)
                  | _ \<Rightarrow> Inr ([], None))))"

text \<open>The whole effect: the \<^verbatim>\<open>catch\<close> block removes the key and sets the empty list.\<close>

definition loadHighScores ::
  "(string \<Rightarrow> 'n json option) \<Rightarrow> string option \<Rightarrow> 'n json list \<times> string option" where
  "loadHighScores JSONparse savedScores =
     (case loadBody JSONparse savedScores of
        Inl e \<Rightarrow> ([], None)
      | Inr r \<Rightarrow> r)"

section \<open>Notions of the specification\<close>

text \<open>
  One step on the torus, as the specification words it: the coordinate in the direction
  of travel moves by one and wraps modulo \<open>gridSize\<close>. UP is towards row 0.
\<close>

fun delta :: "direction \<Rightarrow> int \<times> int" where
  "delta UP = (0, - 1)"
| "delta DOWN = (0, 1)"
| "delta LEFT = (- 1, 0)"
| "delta RIGHT = (1, 0)"

definition wrapStep :: "direction \<Rightarrow> cell \<Rightarrow> cell" where
  "wrapStep d c =
     \<lparr>x = (x c + fst (delta d)) mod gridSize, y = (y c + snd (delta d)) mod gridSize\<rparr>"

text \<open>A cell of the grid.\<close>

definition inGrid :: "cell \<Rightarrow> bool" where
  "inGrid c = (0 \<le> x c \<and> x c < gridSize \<and> 0 \<le> y c \<and> y c < gridSize)"



text \<open>
  The speed formula of the specification: linear interpolation between the speed of
  level 1 and the speed of level 10, rounded to the nearest integer.
\<close>

definition minSpeed :: int where
  "minSpeed = 70"

definition speedSpec :: "int \<Rightarrow> int" where
  "speedSpec lvl =
     round (real_of_int initialSpeed -
            (real_of_int lvl - 1) / 9 * (real_of_int initialSpeed - real_of_int minSpeed))"

text \<open>
  A stored entry as the specification asks for it: the required fields are there and the
  score is a number.
\<close>

fun isScoreEntry :: "'n json \<Rightarrow> bool" where
  "isScoreEntry (JObject props) =
     (map_of props ''name'' \<noteq> None \<and>
      (case map_of props ''score'' of Some (JNumber n) \<Rightarrow> True | _ \<Rightarrow> False))"
| "isScoreEntry item = False"

text \<open>
  The list that is stored, if any: the persisted value is there, is not empty, parses,
  and is an array of such entries.
\<close>

definition storedList :: "(string \<Rightarrow> 'n json option) \<Rightarrow> string option \<Rightarrow> 'n json list option" where
  "storedList JSONparse savedScores =
     (case savedScores of
        None \<Rightarrow> None
      | Some text \<Rightarrow>
          if text = [] then None
          else
            (case JSONparse text of
               Some (JArray items) \<Rightarrow> if list_all isScoreEntry items then Some items else None
             | _ \<Rightarrow> None))"

text \<open>The new entry ranked among the old ones, before the cut to five.\<close>

definition ranked :: "game \<Rightarrow> scoreEntry list" where
  "ranked g = jsSort byScore (highScores g @ [newEntry g])"

section \<open>Sample states\<close>

text \<open>A running game whose next move to the right eats the food.\<close>

definition eatingGame :: game where
  "eatingGame = initialGame\<lparr>gameStarted := True, food := \<lparr>x = 11, y = 10\<rparr>\<rparr>"

text \<open>Draws that hit the snake of \<open>eatingGame\<close> once and then miss it.\<close>

fun retryDraws :: draws where
  "retryDraws 0 = \<lparr>x = 10, y = 10\<rparr>"
| "retryDraws (Suc k) = \<lparr>x = 3, y = 3\<rparr>"

text \<open>Draws that hit the snake of \<open>eatingGame\<close> every time.\<close>

definition stuckDraws :: draws where
  "stuckDraws k = \<lparr>x = 10, y = 10\<rparr>"

text \<open>Draws that hit the cell the head of \<open>eatingGame\<close> is moving to.\<close>

definition headDraws :: draws where
  "headDraws k = \<lparr>x = 11, y = 10\<rparr>"

text \<open>
  A snake that fills the board but for one cell: it runs along row 0 from left to right,
  back along row 1, and so on; its head is at (1, 19), the food in the last free cell
  (0, 19), and it is heading left.
\<close>

definition serpentine :: "nat \<Rightarrow> cell" where
  "serpentine k =
     \<lparr>x = (if even (k div 20) then int (k mod 20) else 19 - int (k mod 20)),
      y = int (k div 20)\<rparr>"

definition fullBoardGame :: game where
  "fullBoardGame =
     initialGame\<lparr>snake := rev (map serpentine [0..<399]),
                 food := \<lparr>x = 0, y = 19\<rparr>,
                 direction := LEFT,
                 score := 398,
                 gameStarted := True,
                 speed := 70,
                 level := 10\<rparr>"

definition fullBoardDraws :: draws where
  "fullBoardDraws k = \<lparr>x = 5, y = 5\<rparr>"

text \<open>
  A running game whose snake has turned back on itself: the next move to the right puts
  the head on the cell of the fourth segment.
\<close>

definition bitingGame :: game where
  "bitingGame =
     initialGame\<lparr>snake := [\<lparr>x = 10, y = 10\<rparr>, \<lparr>x = 10, y = 11\<rparr>, \<lparr>x = 11, y = 11\<rparr>,
                           \<lparr>x = 11, y = 10\<rparr>, \<lparr>x = 11, y = 9\<rparr>],
                 gameStarted := True,
                 score := 4\<rparr>"

text \<open>A running game whose next move to the right puts the head on the cell of the tail.\<close>

definition chasingGame :: game where
  "chasingGame =
     initialGame\<lparr>snake := [\<lparr>x = 10, y = 10\<rparr>, \<lparr>x = 10, y = 11\<rparr>, \<lparr>x = 11, y = 11\<rparr>,
                           \<lparr>x = 11, y = 10\<rparr>],
                 gameStarted := True,
                 score := 3\<rparr>"

text \<open>A running game whose head is on the right edge, heading right.\<close>

definition edgeGame :: game where
  "edgeGame = initialGame\<lparr>snake := [\<lparr>x = 19, y = 10\<rparr>], gameStarted := True\<rparr>"

text \<open>A stored text with one entry, and \<^verbatim>\<open>JSON.parse\<close> on the texts used below.\<close>

definition quoted :: "string \<Rightarrow> string" where
  "quoted s = CHR 0x22 # s @ [CHR 0x22]"

definition annText :: string where
  "annText = ''[{'' @ quoted ''name'' @ '':'' @ quoted ''Ann'' @ '','' @ quoted ''score'' @ '':7}]''"

definition sampleParse :: "string \<Rightarrow> int json option" where
  "sampleParse text =
     (if text = annText
      then Some (JArray [JObject [(''name'', JString ''Ann''), (''score'', JNumber 7)]])
      else if text = ''[{}]'' then Some (JArray [JObject []])
      else if text = ''7'' then Some (JNumber 7)
      else None)"

text \<open>A full high-score table, and a game that is over with that table.\<close>

definition fullTable :: "scoreEntry list" where
  "fullTable =
     [\<lparr>name = ''Ann'', score = 9\<rparr>, \<lparr>name = ''Bob'', score = 7\<rparr>, \<lparr>name = ''Cy'', score = 7\<rparr>,
      \<lparr>name = ''Dee'', score = 4\<rparr>, \<lparr>name = ''Eve'', score = 2\<rparr>]"

definition overGame :: "string \<Rightarrow> int \<Rightarrow> game" where
  "overGame nm sc =
     initialGame\<lparr>gameStarted := True, gameOver := True, showNameInput := True,
                 playerName := nm, score := sc, highScores := fullTable,
                 storage := Some fullTable\<rparr>"

section \<open>Auxiliary facts\<close>

lemma same_cell_iff: "(x a = x b \<and> y a = y b) = (a = (b::cell))"
  by (cases a, cases b) auto

lemma isOnSnake_iff: "isOnSnake c s = (c \<in> set s)"
  by (auto simp: isOnSnake_def list_ex_iff same_cell_iff)

lemma list_ex_enumerate_pos:
  "0 < n \<Longrightarrow> list_ex (\<lambda>(index, segment). index > 0 \<and> P segment) (enumerate n xs) = list_ex P xs"
  by (induction xs arbitrary: n) auto

lemma collided_iff: "collided s h = (h \<in> set (tl s))"
proof (cases s)
  case Nil
  then show ?thesis by (simp add: collided_def)
next
  case (Cons a rest)
  have "list_ex (\<lambda>(index, segment). index > 0 \<and> (x segment = x h \<and> y segment = y h)) (enumerate (Suc 0) rest)
        = list_ex (\<lambda>segment. x segment = x h \<and> y segment = y h) rest"
    by (rule list_ex_enumerate_pos) simp
  with Cons show ?thesis
    by (auto simp: collided_def list_ex_iff same_cell_iff)
qed

lemma generateFood_stop:
  "\<not> (isOnSnake (rnd k) s \<and> int (length s) < gridSize * gridSize - 1) \<Longrightarrow>
   generateFood rnd s k = Some (rnd k)"
  by (subst generateFood.simps) auto

lemma generateFood_retry:
  "isOnSnake (rnd k) s \<Longrightarrow> int (length s) < gridSize * gridSize - 1 \<Longrightarrow>
   generateFood rnd s k = generateFood rnd s (Suc k)"
  by (subst generateFood.simps) simp

lemma generateFood_Some_imp:
  assumes "generateFood rnd s k = Some c"
  shows "\<exists>j\<ge>k. c = rnd j \<and>
           \<not> (isOnSnake (rnd j) s \<and> int (length s) < gridSize * gridSize - 1)"
proof (rule generateFood.raw_induct
    [where P = "\<lambda>rnd s k c. \<exists>j\<ge>k. c = rnd j \<and>
        \<not> (isOnSnake (rnd j) s \<and> int (length s) < gridSize * gridSize - 1)", OF _ assms])
  fix gf :: "draws \<Rightarrow> cell list \<Rightarrow> nat \<Rightarrow> cell option" and rnd s k c
  assume IH: "\<And>rnd s k c. gf rnd s k = Some c \<Longrightarrow>
      \<exists>j\<ge>k. c = rnd j \<and>
        \<not> (isOnSnake (rnd j) s \<and> int (length s) < gridSize * gridSize - 1)"
    and body: "(if isOnSnake (rnd k) s \<and> int (length s) < gridSize * gridSize - 1
       then gf rnd s (Suc k) else Some (rnd k)) = Some c"
  show "\<exists>j\<ge>k. c = rnd j \<and>
      \<not> (isOnSnake (rnd j) s \<and> int (length s) < gridSize * gridSize - 1)"
  proof (cases "isOnSnake (rnd k) s \<and> int (length s) < gridSize * gridSize - 1")
    case True
    with body have "gf rnd s (Suc k) = Some c" by simp
    from IH[OF this] obtain j where "Suc k \<le> j" and "c = rnd j"
      and "\<not> (isOnSnake (rnd j) s \<and> int (length s) < gridSize * gridSize - 1)"
      by auto
    then show ?thesis by (intro exI[of _ j]) auto
  next
    case False
    with body have "c = rnd k" by (auto split: if_splits)
    with False show ?thesis by (intro exI[of _ k]) auto
  qed
qed

lemma generateFood_total_aux:
  "\<not> (isOnSnake (rnd (k + n)) s \<and> int (length s) < gridSize * gridSize - 1) \<Longrightarrow>
   \<exists>c. generateFood rnd s k = Some c"
proof (induction n arbitrary: k)
  case 0
  then show ?case by (simp add: generateFood_stop)
next
  case (Suc n)
  show ?case
  proof (cases "isOnSnake (rnd k) s \<and> int (length s) < gridSize * gridSize - 1")
    case True
    from Suc.prems
    have "\<not> (isOnSnake (rnd (Suc k + n)) s \<and> int (length s) < gridSize * gridSize - 1)"
      by simp
    from Suc.IH[OF this] show ?thesis using True by (simp add: generateFood_retry)
  next
    case False
    then show ?thesis by (simp add: generateFood_stop)
  qed
qed

lemma generateFood_total:
  assumes "k \<le> j"
      and "\<not> (isOnSnake (rnd j) s \<and> int (length s) < gridSize * gridSize - 1)"
  shows "\<exists>c. generateFood rnd s k = Some c"
  using assms generateFood_total_aux[of rnd k "j - k" s] by simp

lemma moveSnake_eat:
  assumes "snake s = first # rest"
      and "\<not> collided (snake s) (moveHead (direction s) first)"
      and "moveHead (direction s) first = food s"
  shows "moveSnake rnd s =
           map_option (\<lambda>newFood. playSound eatSound
              (s\<lparr>score := game.score s + 1, food := newFood, snake := food s # snake s\<rparr>))
             (generateFood rnd (snake s) 0)"
  using assms by (simp add: moveSnake_def Let_def split: option.splits)

lemma moveSnake_plain:
  assumes "snake s = first # rest"
      and "\<not> collided (snake s) (moveHead (direction s) first)"
      and "moveHead (direction s) first \<noteq> food s"
  shows "moveSnake rnd s = Some (s\<lparr>snake := moveHead (direction s) first # butlast (snake s)\<rparr>)"
  using assms by (simp add: moveSnake_def Let_def same_cell_iff)

lemma moveSnake_collided:
  assumes "snake s = first # rest"
      and "collided (snake s) (moveHead (direction s) first)"
  shows "moveSnake rnd s = Some (playSound gameOverSound (s\<lparr>gameOver := True, showNameInput := True\<rparr>))"
  using assms by (simp add: moveSnake_def Let_def)

lemma playSound_fields [simp]:
  "snake (playSound c g) = snake g" "food (playSound c g) = food g"
  "gameOver (playSound c g) = gameOver g" "direction (playSound c g) = direction g"
  "game.score (playSound c g) = game.score g" "gameStarted (playSound c g) = gameStarted g"
  "paused (playSound c g) = paused g" "showNameInput (playSound c g) = showNameInput g"
  by (simp_all add: playSound_def)

lemma generateFood_retryDraws:
  "generateFood retryDraws [\<lparr>x = 10, y = 10\<rparr>] 0 = Some \<lparr>x = 3, y = 3\<rparr>"
proof -
  have "generateFood retryDraws [\<lparr>x = 10, y = 10\<rparr>] 0 =
        generateFood retryDraws [\<lparr>x = 10, y = 10\<rparr>] (Suc 0)"
    by (rule generateFood_retry) (simp_all add: isOnSnake_def gridSize_def)
  also have "\<dots> = Some (retryDraws (Suc 0))"
    by (rule generateFood_stop) (simp add: isOnSnake_def)
  finally show ?thesis by simp
qed

lemma moveSnake_eatingGame:
  "moveSnake retryDraws eatingGame =
     Some (eatingGame\<lparr>score := 1, food := \<lparr>x = 3, y = 3\<rparr>,
                      snake := [\<lparr>x = 11, y = 10\<rparr>, \<lparr>x = 10, y = 10\<rparr>],
                      played := [eatSound]\<rparr>)"
  by (simp add: moveSnake_def eatingGame_def initialGame_def moveHead_def collided_def
      gridSize_def generateFood_retryDraws playSound_def)

lemma serpentine_corner: "k < 399 \<Longrightarrow> serpentine k \<noteq> \<lparr>x = 0, y = 19\<rparr>"
proof
  assume k: "k < 399" and eq: "serpentine k = \<lparr>x = 0, y = 19\<rparr>"
  from eq have d: "k div 20 = 19" by (simp add: serpentine_def)
  with eq have "19 - int (k mod 20) = 0" by (simp add: serpentine_def)
  then have "k mod 20 = 19" by simp
  with d have "k = 399" by presburger
  with k show False by simp
qed

lemma fullBoard_snake:
  "snake fullBoardGame = serpentine 398 # rev (map serpentine [0..<398])"
proof -
  have "[0..<Suc 398] = [0..<398] @ [398]" by (rule upt_Suc_append) simp
  moreover have "Suc 398 = 399" by simp
  ultimately have "[0..<399] = [0..<398] @ [398]" by (simp only:)
  then show ?thesis by (simp add: fullBoardGame_def)
qed

lemma fullBoard_newHead: "moveHead (direction fullBoardGame) (serpentine 398) = food fullBoardGame"
    by (simp add: fullBoardGame_def serpentine_def moveHead_def gridSize_def)

lemma serpentine_below: "\<forall>k<398. serpentine k \<noteq> \<lparr>x = 0, y = 19\<rparr>"
    using serpentine_corner by simp

lemma fullBoard_food_free: "food fullBoardGame \<notin> set (map serpentine [0..<398])"
  using serpentine_below by (auto simp: fullBoardGame_def)

lemma fullBoard_not_collided: "\<not> collided (snake fullBoardGame) (moveHead (direction fullBoardGame) (serpentine 398))"
    unfolding fullBoard_newHead collided_iff fullBoard_snake using fullBoard_food_free by simp
 
lemma fullBoard_stops: "\<not> (isOnSnake (fullBoardDraws 0) (snake fullBoardGame) \<and>
      int (length (snake fullBoardGame)) < gridSize * gridSize - 1)"
    by (simp add: fullBoard_snake gridSize_def)

lemma levelEffect_keeps [simp]:
  "snake (levelEffect g) = snake g" "gameOver (levelEffect g) = gameOver g"
  by (simp_all add: levelEffect_def Let_def)

lemma handle_after_gameOver:
  assumes "gameOver g" and "\<not> isReset e"
  shows "\<exists>g'. handle e g = Some g' \<and> gameOver g' \<and> snake g' = snake g"
  using assms
  by (cases e)
     (simp_all add: gameLoop_def handleKeyPress_def handleDirectionChange_def togglePause_def
        endGame_def saveHighScore_def Let_def)

lemma step_after_gameOver:
  assumes "gameOver g" and "\<not> isReset e"
  shows "\<exists>g'. step e g = Some g' \<and> gameOver g' \<and> snake g' = snake g"
  using handle_after_gameOver[OF assms] by (auto simp: step_def)

lemma run_after_gameOver:
  assumes "gameOver g" and "\<forall>e\<in>set evs. \<not> isReset e"
  shows "\<exists>g'. run evs g = Some g' \<and> gameOver g' \<and> snake g' = snake g"
  using assms
proof (induction evs arbitrary: g)
  case Nil
  then show ?case by simp
next
  case (Cons e evs)
  from Cons.prems obtain g1 where g1: "step e g = Some g1" "gameOver g1" "snake g1 = snake g"
    using step_after_gameOver[of g e] by auto
  from Cons.prems have "\<forall>e\<in>set evs. \<not> isReset e" by simp
  from Cons.IH[OF g1(2) this] g1 show ?case by auto
qed

lemma collided_index:
  "collided s h = (\<exists>i. 0 < i \<and> i < length s \<and> s ! i = h)"
proof (cases s)
  case Nil
  then show ?thesis by (simp add: collided_iff)
next
  case (Cons a rest)
  have "(h \<in> set rest) = (\<exists>i. 0 < i \<and> i < Suc (length rest) \<and> (a # rest) ! i = h)"
  proof
    assume "h \<in> set rest"
    then obtain n where "n < length rest" "rest ! n = h" by (auto simp: in_set_conv_nth)
    then show "\<exists>i. 0 < i \<and> i < Suc (length rest) \<and> (a # rest) ! i = h"
      by (intro exI[of _ "Suc n"]) simp
  next
    assume "\<exists>i. 0 < i \<and> i < Suc (length rest) \<and> (a # rest) ! i = h"
    then obtain i where "0 < i" "i < Suc (length rest)" "(a # rest) ! i = h" by auto
    then show "h \<in> set rest" by (cases i) auto
  qed
  with Cons show ?thesis by (simp add: collided_iff)
qed

lemma moveHead_wrapStep:
  assumes "inGrid h"
  shows "moveHead d h = wrapStep d h"
proof -
  have up: "(if v = 0 then 19 else v - 1) = (v - 1) mod 20" if "0 \<le> v" "v < 20" for v :: int
    using that by auto
  have down: "(if v = 19 then 0 else v + 1) = (v + 1) mod 20" if "0 \<le> v" "v < 20" for v :: int
    using that by auto
  obtain a b where h: "h = \<lparr>x = a, y = b\<rparr>" by (cases h) auto
  with assms have "0 \<le> a" "a < 20" "0 \<le> b" "b < 20" by (simp_all add: inGrid_def gridSize_def)
  then show ?thesis
    using up[of a] up[of b] down[of a] down[of b]
    by (cases d) (simp_all add: h moveHead_def wrapStep_def gridSize_def)
qed

lemma inGrid_wrapStep: "inGrid (wrapStep d h)"
  by (simp add: inGrid_def wrapStep_def gridSize_def)

lemma moveSnake_not_over:
  assumes "snake s = first # rest" and "moveSnake rnd s = Some s'" and "\<not> gameOver s'"
  shows "\<not> collided (snake s) (moveHead (direction s) first)"
  using assms moveSnake_collided[OF assms(1), of rnd] by auto

lemma moveSnake_not_over_snake:
  assumes "snake s = first # rest" and "moveSnake rnd s = Some s'" and "\<not> gameOver s'"
  shows "snake s' = (if moveHead (direction s) first = food s
                     then moveHead (direction s) first # snake s
                     else moveHead (direction s) first # butlast (snake s))"
proof (cases "moveHead (direction s) first = food s")
  case True
  from moveSnake_eat[OF assms(1) moveSnake_not_over[OF assms] True, of rnd] assms(2) True
  show ?thesis by (cases "generateFood rnd (snake s) 0") auto
next
  case False
  from moveSnake_plain[OF assms(1) moveSnake_not_over[OF assms] False, of rnd] assms(2) False
  show ?thesis by auto
qed

lemma moveSnake_edgeGame:
  "moveSnake stuckDraws edgeGame = Some (edgeGame\<lparr>snake := [\<lparr>x = 0, y = 10\<rparr>]\<rparr>)"
  by (simp add: moveSnake_def edgeGame_def initialGame_def moveHead_def collided_def gridSize_def)

lemma arrowKey_simps [simp]:
  "arrowKey d \<noteq> ''p''" "arrowKey d \<noteq> ''P''" "arrowKey d \<noteq> ''x''" "arrowKey d \<noteq> ''X''"
  "arrowKey d \<in> set [''ArrowUp'', ''ArrowDown'', ''ArrowLeft'', ''ArrowRight'']"
  by (cases d; simp)+

lemma calculateSpeed_div: "calculateSpeed lvl = (3169 - 190 * lvl) div 18"
proof -
  have A: "calculateSpeed lvl =
      \<lfloor>real_of_int 165 - (real_of_int lvl - 1) / 9 * real_of_int (165 - 70) + 1 / 2\<rfloor>"
    by (simp only: calculateSpeed_def Let_def jsRound_def initialSpeed_def)
  have B: "real_of_int 165 - (real_of_int lvl - 1) / 9 * real_of_int (165 - 70) + 1 / 2 =
        real_of_int (3169 - 190 * lvl) / real_of_int 18"
    by (simp add: field_simps)
  show ?thesis by (simp only: A B floor_divide_of_int_eq)
qed

lemma calculateSpeed_speedSpec: "calculateSpeed lvl = speedSpec lvl"
  by (simp add: calculateSpeed_def speedSpec_def jsRound_def round_def minSpeed_def
      initialSpeed_def Let_def)

lemma calculateSpeed_antimono: "a \<le> b \<Longrightarrow> calculateSpeed b \<le> calculateSpeed a"
  unfolding calculateSpeed_div by (rule zdiv_mono1) simp_all

lemma levels: "1 \<le> lvl \<Longrightarrow> lvl \<le> 10 \<Longrightarrow> lvl \<in> {1, 2, 3, 4, 5, 6, 7, 8, 9, 10::int}"
  by simp arith

lemma calculateSpeed_table:
  "map calculateSpeed [1, 2, 3, 4, 5, 6, 7, 8, 9, 10] = [165, 154, 144, 133, 123, 112, 102, 91, 81, 70]"
  by (simp add: calculateSpeed_div)

lemma jsRound_near:
  assumes "real_of_int n - 1 / 2 + 1 / 100 \<le> v" and "v \<le> real_of_int n + 1 / 2 - 1 / 50"
      and "\<bar>e\<bar> \<le> 1 / 100"
  shows "jsRound (v + e) = n"
  unfolding jsRound_def using assms by (intro floor_unique) (auto simp: abs_le_iff)

lemma calculateSpeed_stable:
  assumes "1 \<le> lvl" and "lvl \<le> 10" and "\<bar>e\<bar> \<le> 1 / 100"
  shows "jsRound (real_of_int initialSpeed - (real_of_int lvl - 1) / 9 * real_of_int (initialSpeed - 70) + e)
         = calculateSpeed lvl"
proof -
  from levels[OF assms(1,2)] show ?thesis
    by (elim insertE emptyE; simp only: calculateSpeed_div initialSpeed_def; intro jsRound_near[OF _ _ assms(3)]; simp)
qed

lemma typeof_number: "(typeof v = ''number'') = (\<exists>n. v = JNumber n)"
  by (cases v) simp_all

lemma validItem_isScoreEntry: "validItem item = isScoreEntry item"
proof (cases item)
  case (JObject props)
  then show ?thesis
    by (cases "map_of props ''score''")
       (auto simp: validItem_def typeof_number split: json.splits)
qed (simp_all add: validItem_def)

lemma list_all_validItem: "list_all validItem items = list_all isScoreEntry items"
  by (simp add: validItem_isScoreEntry[abs_def])

lemma annText_distinct:
  "annText \<noteq> []" "''[{}]'' \<noteq> annText" "''7'' \<noteq> annText" "''[1,'' \<noteq> annText"
  by (simp_all add: annText_def quoted_def)

lemma insertBy_insort_key:
  "insertBy byScore a xs = insort_key (\<lambda>e. - scoreEntry.score e) a xs"
  by (induction xs) (auto simp: byScore_def)

lemma jsSort_sort_key: "jsSort byScore xs = sort_key (\<lambda>e. - scoreEntry.score e) xs"
  by (simp add: jsSort_def sort_key_def insertBy_insort_key[abs_def])

lemma mset_jsSort: "mset (jsSort byScore xs) = mset xs"
  by (simp add: jsSort_sort_key)

lemma length_jsSort: "length (jsSort byScore xs) = length xs"
  by (simp add: jsSort_sort_key)

lemma sorted_jsSort:
  "sorted_wrt (\<lambda>a b. scoreEntry.score b \<le> scoreEntry.score a) (jsSort byScore xs)"
proof -
  have "sorted (map (\<lambda>e. - scoreEntry.score e) (sort_key (\<lambda>e. - scoreEntry.score e) xs))"
    by (rule sorted_sort_key)
  then show ?thesis by (simp add: jsSort_sort_key sorted_map)
qed

lemma stable_jsSort:
  "filter (\<lambda>a. scoreEntry.score a = v) (jsSort byScore xs) = filter (\<lambda>a. scoreEntry.score a = v) xs"
proof -
  have "filter (\<lambda>a. - scoreEntry.score a = - v) (sort_key (\<lambda>e. - scoreEntry.score e) xs) =
        filter (\<lambda>a. - scoreEntry.score a = - v) xs"
    by (rule sort_key_stable)
  then show ?thesis by (simp add: jsSort_sort_key)
qed

lemma length_trim: "length (trim s) \<le> length s"
proof -
  have "length (trim s) \<le> length (dropWhile isWhiteSpace s)"
    unfolding trim_def using length_dropWhile_le[of isWhiteSpace "rev (dropWhile isWhiteSpace s)"]
    by simp
  also have "\<dots> \<le> length s" by (rule length_dropWhile_le)
  finally show ?thesis .
qed

lemma trim_sandwich:
  "\<exists>l r. s = l @ trim s @ r \<and> list_all isWhiteSpace l \<and> list_all isWhiteSpace r \<and>
         (trim s \<noteq> [] \<longrightarrow> \<not> isWhiteSpace (hd (trim s)) \<and> \<not> isWhiteSpace (last (trim s)))"
proof -
  let ?l = "takeWhile isWhiteSpace s"
  let ?m = "dropWhile isWhiteSpace s"
  let ?r = "rev (takeWhile isWhiteSpace (rev ?m))"
  have m: "?m = trim s @ ?r"
  proof -
    have "rev (trim s @ ?r) = rev ?m" by (simp add: trim_def)
    then show ?thesis by (simp only: rev_is_rev_conv)
  qed
  have "s = ?l @ ?m" by simp
  with m have s: "s = ?l @ trim s @ ?r" by simp
  have l: "list_all isWhiteSpace ?l" by (simp add: list_all_iff) (meson set_takeWhileD)
  have r: "list_all isWhiteSpace ?r" by (simp add: list_all_iff) (meson set_takeWhileD)
  have e: "trim s \<noteq> [] \<longrightarrow> \<not> isWhiteSpace (hd (trim s)) \<and> \<not> isWhiteSpace (last (trim s))"
  proof
    assume ne: "trim s \<noteq> []"
    then have ne': "dropWhile isWhiteSpace (rev ?m) \<noteq> []" by (simp add: trim_def)
    from ne' have "\<not> isWhiteSpace (hd (dropWhile isWhiteSpace (rev ?m)))" by (rule hd_dropWhile)
    with ne' have last: "\<not> isWhiteSpace (last (trim s))" by (simp add: trim_def last_rev)
    have "?m \<noteq> []"
    proof
      assume "?m = []"
      with m have "trim s @ ?r = []" by (simp only:)
      with ne show False by simp
    qed
    then have "\<not> isWhiteSpace (hd ?m)" by (rule hd_dropWhile)
    moreover from m ne have "hd ?m = hd (trim s)" by (metis hd_append2)
    ultimately show "\<not> isWhiteSpace (hd (trim s)) \<and> \<not> isWhiteSpace (last (trim s))"
      using last by simp
  qed
  from s l r e show ?thesis by blast
qed

lemma sorted_last_least:
  assumes "sorted_wrt (\<lambda>a b. scoreEntry.score b \<le> scoreEntry.score a) full" and "a \<in> set full"
  shows "scoreEntry.score (last full) \<le> scoreEntry.score a"
proof -
  from assms(2) have ne: "full \<noteq> []" by auto
  then have full: "full = butlast full @ [last full]" by simp
  from assms(1) have "sorted_wrt (\<lambda>a b. scoreEntry.score b \<le> scoreEntry.score a) (butlast full @ [last full])"
    by (simp only: full[symmetric])
  then have "\<forall>b\<in>set (butlast full). scoreEntry.score (last full) \<le> scoreEntry.score b"
    by (simp add: sorted_wrt_append)
  moreover from assms(2) full have "a \<in> set (butlast full) \<or> a = last full"
    by (metis Un_iff empty_iff insert_iff list.set(1) list.set(2) set_append)
  ultimately show ?thesis by auto
qed

lemma lower_score_dropped:
  assumes m: "mset full = mset hs + {#e#}"
      and s: "sorted_wrt (\<lambda>a b. scoreEntry.score b \<le> scoreEntry.score a) full"
      and low: "\<forall>a\<in>set hs. scoreEntry.score e < scoreEntry.score a"
  shows "e \<notin> set (butlast full) \<and> mset (butlast full) = mset hs"
proof -
  from m have set: "set full = insert e (set hs)" by (metis set_mset_mset set_mset_union set_mset_single Un_insert_right sup_bot.right_neutral)
  then have ne: "full \<noteq> []" by auto
  then have full: "full = butlast full @ [last full]" by simp
  have "e \<in> set full" using set by simp
  from sorted_last_least[OF s this] have le: "scoreEntry.score (last full) \<le> scoreEntry.score e" .
  have "last full \<in> set full" using ne by simp
  with set low le have last: "last full = e" by auto
  from m full have "mset (butlast full) + {#last full#} = mset hs + {#e#}"
    by (metis mset_append mset_single_iff_right mset.simps(1) mset.simps(2) add_mset_add_single)
  with last have ms: "mset (butlast full) = mset hs" by simp
  from low have "e \<notin> set hs" by auto
  with ms have "e \<notin> set (butlast full)" by (metis set_mset_mset)
  with ms show ?thesis by simp
qed

lemma higher_score_evicts:
  assumes m: "mset full = mset hs + {#e#}"
      and s: "sorted_wrt (\<lambda>a b. scoreEntry.score b \<le> scoreEntry.score a) full"
      and high: "\<exists>a\<in>set hs. scoreEntry.score a < scoreEntry.score e"
  shows "e \<in> set (butlast full) \<and>
         (\<exists>ev\<in>set hs. mset (butlast full) + {#ev#} = mset hs + {#e#} \<and>
            (\<forall>a\<in>set (butlast full). scoreEntry.score ev \<le> scoreEntry.score a))"
proof -
  from m have set: "set full = insert e (set hs)" by (metis set_mset_mset set_mset_union set_mset_single Un_insert_right sup_bot.right_neutral)
  then have ne: "full \<noteq> []" by auto
  then have full: "full = butlast full @ [last full]" by simp
  from high obtain a where a: "a \<in> set hs" "scoreEntry.score a < scoreEntry.score e" by auto
  with set have "a \<in> set full" by simp
  from sorted_last_least[OF s this] a have lt: "scoreEntry.score (last full) < scoreEntry.score e" by simp
  then have neq: "last full \<noteq> e" by auto
  have "last full \<in> set full" using ne by simp
  with set neq have ev: "last full \<in> set hs" by auto
  have "e \<in> set full" using set by simp
  with full neq have e: "e \<in> set (butlast full)"
    by (metis Un_iff empty_iff insert_iff list.set(1) list.set(2) set_append)
  from m full have ms: "mset (butlast full) + {#last full#} = mset hs + {#e#}"
    by (metis mset_append mset.simps(1) mset.simps(2) add_mset_add_single)
  have "\<forall>b\<in>set (butlast full). scoreEntry.score (last full) \<le> scoreEntry.score b"
    using sorted_last_least[OF s] by (meson in_set_butlastD)
  with e ev ms show ?thesis by blast
qed
lemma saveHighScore_fields:
  "highScores (saveHighScore g) = take 5 (ranked g)"
  "storage (saveHighScore g) = Some (take 5 (ranked g))"
  "showNameInput (saveHighScore g) = False"
  by (simp_all add: saveHighScore_def ranked_def Let_def)

lemma ranked_facts:
  "mset (ranked g) = mset (highScores g) + {#newEntry g#}"
  "sorted_wrt (\<lambda>a b. scoreEntry.score b \<le> scoreEntry.score a) (ranked g)"
  "length (ranked g) = Suc (length (highScores g))"
  by (simp_all add: ranked_def mset_jsSort sorted_jsSort length_jsSort)

lemma take_five_of_six:
  assumes "length (highScores g) = 5"
  shows "take 5 (ranked g) = butlast (ranked g)"
  using assms by (simp add: butlast_conv_take ranked_facts(3))

lemma sorted_take:
  "sorted_wrt P xs \<Longrightarrow> sorted_wrt P (take n xs)"
  by (metis append_take_drop_id sorted_wrt_append)

lemma trim_samples:
  "trim '' Flo '' = ''Flo''"
  "trim ''   '' = []"
  by (simp_all add: trim_def isWhiteSpace_def)

lemma ranked_samples:
  "ranked (overGame '' Flo '' 7) =
     [\<lparr>name = ''Ann'', score = 9\<rparr>, \<lparr>name = ''Bob'', score = 7\<rparr>, \<lparr>name = ''Cy'', score = 7\<rparr>,
      \<lparr>name = ''Flo'', score = 7\<rparr>, \<lparr>name = ''Dee'', score = 4\<rparr>, \<lparr>name = ''Eve'', score = 2\<rparr>]"
  "ranked (overGame ''   '' 1) =
     [\<lparr>name = ''Ann'', score = 9\<rparr>, \<lparr>name = ''Bob'', score = 7\<rparr>, \<lparr>name = ''Cy'', score = 7\<rparr>,
      \<lparr>name = ''Dee'', score = 4\<rparr>, \<lparr>name = ''Eve'', score = 2\<rparr>, \<lparr>name = ''Anonymous'', score = 1\<rparr>]"
  by (simp_all add: ranked_def overGame_def initialGame_def fullTable_def newEntry_def trim_samples
      jsSort_def byScore_def)

section \<open>Food generation\<close>

text \<open>
  C1. When the new head is the food cell and the snake of the snapshot is shorter than
  \<open>gridSize * gridSize - 1\<close>, a tick that returns puts the new head in front of that
  snake and the food it has generated on none of the cells of that snake, that is on none
  of the cells of the new snake behind its head; and the tick returns as soon as one draw
  misses that snake.
\<close>

theorem new_food_off_previous_snake:
  assumes "snake s = first # rest"
      and "\<not> collided (snake s) (moveHead (direction s) first)"
      and "moveHead (direction s) first = food s"
      and "int (length (snake s)) < gridSize * gridSize - 1"
  shows "(\<forall>s'. moveSnake rnd s = Some s' \<longrightarrow>
            snake s' = food s # snake s \<and> food s' \<notin> set (snake s)) \<and>
         ((\<exists>j. rnd j \<notin> set (snake s)) \<longrightarrow> moveSnake rnd s \<noteq> None)"
proof (intro conjI allI impI)
  fix s' assume run: "moveSnake rnd s = Some s'"
  from run obtain newFood where nf: "generateFood rnd (snake s) 0 = Some newFood"
    and s': "s' = playSound eatSound
              (s\<lparr>score := game.score s + 1, food := newFood, snake := food s # snake s\<rparr>)"
    unfolding moveSnake_eat[OF assms(1-3)] by auto
  from generateFood_Some_imp[OF nf] assms(4) have "newFood \<notin> set (snake s)"
    by (auto simp: isOnSnake_iff)
  with s' show "snake s' = food s # snake s" "food s' \<notin> set (snake s)" by simp_all
next
  assume "\<exists>j. rnd j \<notin> set (snake s)"
  then obtain j where "rnd j \<notin> set (snake s)" ..
  then have "\<not> (isOnSnake (rnd j) (snake s) \<and> int (length (snake s)) < gridSize * gridSize - 1)"
    by (simp add: isOnSnake_iff)
  with generateFood_total[where rnd = rnd and k = 0 and j = j and s = "snake s"] show "moveSnake rnd s \<noteq> None"
    unfolding moveSnake_eat[OF assms(1-3)] by auto
qed

theorem new_food_off_previous_snake_witness:
  "snake (the (moveSnake retryDraws eatingGame)) = [\<lparr>x = 11, y = 10\<rparr>, \<lparr>x = 10, y = 10\<rparr>] \<and>
   food (the (moveSnake retryDraws eatingGame)) = \<lparr>x = 3, y = 3\<rparr> \<and>
   food (the (moveSnake retryDraws eatingGame)) \<notin> set (snake eatingGame) \<and>
   moveSnake retryDraws eatingGame \<noteq> None"
proof -
  have "snake eatingGame = \<lparr>x = 10, y = 10\<rparr> # []"
    and "\<not> collided (snake eatingGame) (moveHead (direction eatingGame) \<lparr>x = 10, y = 10\<rparr>)"
    and "moveHead (direction eatingGame) \<lparr>x = 10, y = 10\<rparr> = food eatingGame"
    and "int (length (snake eatingGame)) < gridSize * gridSize - 1"
    by (simp_all add: eatingGame_def initialGame_def moveHead_def collided_def gridSize_def)
  from new_food_off_previous_snake[OF this, of retryDraws] moveSnake_eatingGame
  show ?thesis by simp
qed

text \<open>
  With a snake of \<open>gridSize * gridSize - 1\<close> cells \<^verbatim>\<open>generateFood\<close> does not try
  again: the tick of \<open>fullBoardGame\<close> fills the board, and the food it generates lies
  under the snake.
\<close>

theorem full_board_food_on_snake:
  "moveHead (direction fullBoardGame) (hd (snake fullBoardGame)) = food fullBoardGame \<and>
   moveSnake fullBoardDraws fullBoardGame \<noteq> None \<and>
   food (the (moveSnake fullBoardDraws fullBoardGame))
     \<in> set (snake (the (moveSnake fullBoardDraws fullBoardGame)))"
proof -
  have run: "moveSnake fullBoardDraws fullBoardGame =
     Some (playSound eatSound (fullBoardGame\<lparr>score := game.score fullBoardGame + 1,
        food := fullBoardDraws 0, snake := food fullBoardGame # snake fullBoardGame\<rparr>))"
    by (simp add: moveSnake_eat[OF fullBoard_snake fullBoard_not_collided fullBoard_newHead]
        generateFood_stop[of fullBoardDraws 0 "snake fullBoardGame", OF fullBoard_stops])
  have "serpentine 114 = \<lparr>x = 5, y = 5\<rparr>" by (simp add: serpentine_def)
  moreover have "(114::nat) \<in> set [0..<398]" by simp
  ultimately have "\<lparr>x = 5, y = 5\<rparr> \<in> serpentine ` set [0..<398]"
    by (metis imageI)
  then have "fullBoardDraws 0 \<in> set (snake fullBoardGame)"
    by (simp add: fullBoard_snake fullBoardDraws_def del: set_upt)
  with fullBoard_newHead run show ?thesis
    by (simp add: fullBoard_snake)
qed

text \<open>
  The snake \<^verbatim>\<open>generateFood\<close> looks at lacks the new head: a draw on the cell the
  head has just moved to is accepted.
\<close>

lemma food_under_new_head:
  "moveSnake headDraws eatingGame =
     Some (eatingGame\<lparr>score := 1, food := \<lparr>x = 11, y = 10\<rparr>,
                      snake := [\<lparr>x = 11, y = 10\<rparr>, \<lparr>x = 10, y = 10\<rparr>],
                      played := [eatSound]\<rparr>)"
proof -
  have "generateFood headDraws [\<lparr>x = 10, y = 10\<rparr>] 0 = Some (headDraws 0)"
    by (rule generateFood_stop) (simp add: isOnSnake_def headDraws_def)
  then show ?thesis
    by (simp add: moveSnake_def eatingGame_def initialGame_def moveHead_def collided_def
        gridSize_def playSound_def headDraws_def)
qed

text \<open>
  C6. \<^verbatim>\<open>generateFood\<close> returns exactly when the snake has at least
  \<open>gridSize * gridSize - 1\<close> cells or some draw from the current one on misses the snake.
  It returns the current draw when the snake is that long or the draw misses the snake,
  and it tries the next draw otherwise.
\<close>

theorem generateFood_returns_iff:
  "(generateFood rnd refSnake k \<noteq> None) =
     (gridSize * gridSize - 1 \<le> int (length refSnake) \<or> (\<exists>j\<ge>k. \<not> isOnSnake (rnd j) refSnake)) \<and>
   (gridSize * gridSize - 1 \<le> int (length refSnake) \<or> \<not> isOnSnake (rnd k) refSnake \<longrightarrow>
      generateFood rnd refSnake k = Some (rnd k)) \<and>
   (isOnSnake (rnd k) refSnake \<and> int (length refSnake) < gridSize * gridSize - 1 \<longrightarrow>
      generateFood rnd refSnake k = generateFood rnd refSnake (Suc k))"
proof (intro conjI impI)
  show "(generateFood rnd refSnake k \<noteq> None) =
     (gridSize * gridSize - 1 \<le> int (length refSnake) \<or> (\<exists>j\<ge>k. \<not> isOnSnake (rnd j) refSnake))"
  proof
    assume "generateFood rnd refSnake k \<noteq> None"
    then obtain c where "generateFood rnd refSnake k = Some c" by auto
    from generateFood_Some_imp[OF this]
    show "gridSize * gridSize - 1 \<le> int (length refSnake) \<or> (\<exists>j\<ge>k. \<not> isOnSnake (rnd j) refSnake)"
      by auto
  next
    assume "gridSize * gridSize - 1 \<le> int (length refSnake) \<or> (\<exists>j\<ge>k. \<not> isOnSnake (rnd j) refSnake)"
    then have "\<exists>j\<ge>k. \<not> (isOnSnake (rnd j) refSnake \<and>
        int (length refSnake) < gridSize * gridSize - 1)"
    proof
      assume "gridSize * gridSize - 1 \<le> int (length refSnake)"
      then show ?thesis by (intro exI[of _ k]) simp
    next
      assume "\<exists>j\<ge>k. \<not> isOnSnake (rnd j) refSnake"
      then show ?thesis by auto
    qed
    then obtain j where "k \<le> j" and
      "\<not> (isOnSnake (rnd j) refSnake \<and> int (length refSnake) < gridSize * gridSize - 1)"
      by auto
    with generateFood_total[where rnd = rnd and k = k and j = j and s = refSnake]
    show "generateFood rnd refSnake k \<noteq> None" by auto
  qed
next
  assume "gridSize * gridSize - 1 \<le> int (length refSnake) \<or> \<not> isOnSnake (rnd k) refSnake"
  then show "generateFood rnd refSnake k = Some (rnd k)"
    by (intro generateFood_stop) auto
next
  assume "isOnSnake (rnd k) refSnake \<and> int (length refSnake) < gridSize * gridSize - 1"
  then show "generateFood rnd refSnake k = generateFood rnd refSnake (Suc k)"
    by (simp add: generateFood_retry)
qed

theorem generateFood_returns_iff_witness:
  "generateFood retryDraws [\<lparr>x = 10, y = 10\<rparr>] 0 = Some \<lparr>x = 3, y = 3\<rparr> \<and>
   generateFood retryDraws [\<lparr>x = 10, y = 10\<rparr>] 0 = generateFood retryDraws [\<lparr>x = 10, y = 10\<rparr>] (Suc 0) \<and>
   isOnSnake (retryDraws 0) [\<lparr>x = 10, y = 10\<rparr>] \<and>
   \<not> isOnSnake (retryDraws (Suc 0)) [\<lparr>x = 10, y = 10\<rparr>]"
  using generateFood_returns_iff[of retryDraws "[\<lparr>x = 10, y = 10\<rparr>]" 0]
    generateFood_returns_iff[of retryDraws "[\<lparr>x = 10, y = 10\<rparr>]" "Suc 0"]
  by (simp add: isOnSnake_def gridSize_def)

text \<open>Draws that always hit a short snake keep \<^verbatim>\<open>generateFood\<close> from returning.\<close>

theorem generateFood_never_returns:
  "generateFood stuckDraws [\<lparr>x = 10, y = 10\<rparr>] 0 = None"
proof (rule ccontr)
  assume "generateFood stuckDraws [\<lparr>x = 10, y = 10\<rparr>] 0 \<noteq> None"
  then obtain c where "generateFood stuckDraws [\<lparr>x = 10, y = 10\<rparr>] 0 = Some c" by auto
  from generateFood_Some_imp[OF this] show False
    by (simp add: isOnSnake_def stuckDraws_def gridSize_def)
qed

section \<open>The tick\<close>

text \<open>
  C2. When the new head lies on a cell of the snake at an index above 0, the tick sets
  \<open>gameOver\<close> (and asks for the name, and plays the game-over sound) and leaves the
  snake as it is; after that no sequence of frames, keys, buttons and edits other than
  the play-again button changes the snake or clears \<open>gameOver\<close>.
\<close>

theorem self_collision_ends_game:
  assumes "0 < i" and "i < length (snake s)"
      and "snake s ! i = moveHead (direction s) (hd (snake s))"
  shows "moveSnake rnd s = Some (playSound gameOverSound (s\<lparr>gameOver := True, showNameInput := True\<rparr>)) \<and>
         gameOver (the (moveSnake rnd s)) \<and>
         snake (the (moveSnake rnd s)) = snake s \<and>
         (\<forall>evs. (\<forall>e\<in>set evs. \<not> isReset e) \<longrightarrow>
            (\<exists>g. run evs (the (moveSnake rnd s)) = Some g \<and> gameOver g \<and> snake g = snake s))"
proof -
  from assms(1,2) obtain first rest where s: "snake s = first # rest"
    by (cases "snake s") auto
  from assms have "collided (snake s) (moveHead (direction s) first)"
    unfolding collided_index using s by auto
  from moveSnake_collided[OF s this]
  have run: "moveSnake rnd s = Some (playSound gameOverSound (s\<lparr>gameOver := True, showNameInput := True\<rparr>))" .
  then have over: "gameOver (the (moveSnake rnd s))" and same: "snake (the (moveSnake rnd s)) = snake s"
    by simp_all
  from run_after_gameOver[OF over] same run show ?thesis by auto
qed

theorem self_collision_ends_game_witness:
  "snake bitingGame ! 3 = moveHead (direction bitingGame) (hd (snake bitingGame)) \<and>
   gameOver (the (moveSnake stuckDraws bitingGame)) \<and>
   snake (the (moveSnake stuckDraws bitingGame)) = snake bitingGame \<and>
   (\<exists>g. run [Frame stuckDraws, KeyDown ''ArrowUp'', DirectionButton LEFT, PauseButton,
             NameChange ''Ann'', SaveScoreButton] (the (moveSnake stuckDraws bitingGame)) = Some g \<and>
        gameOver g \<and> snake g = snake bitingGame)"
proof -
  have "0 < (3::nat)" and "3 < length (snake bitingGame)"
    and "snake bitingGame ! 3 = moveHead (direction bitingGame) (hd (snake bitingGame))"
    by (simp_all add: bitingGame_def initialGame_def moveHead_def gridSize_def)
  note collision = this(3) and ends = self_collision_ends_game[OF this, of stuckDraws]
  have "\<forall>e\<in>set [Frame stuckDraws, KeyDown ''ArrowUp'', DirectionButton LEFT, PauseButton,
      NameChange ''Ann'', SaveScoreButton]. \<not> isReset e"
    by simp
  with ends collision show ?thesis by blast
qed

text \<open>
  C3. For a head inside the grid the new head is the head moved by one cell in the
  current direction modulo \<open>gridSize\<close> in both coordinates, and it is inside the grid
  again; this is the head of the snake after every tick that does not end the game.
  In particular the head (19, 10) moving right becomes (0, 10).
\<close>

theorem new_head_wraps:
  assumes "inGrid h"
  shows "moveHead d h = wrapStep d h \<and> inGrid (moveHead d h) \<and>
         (\<forall>s rnd s'. snake s \<noteq> [] \<and> hd (snake s) = h \<and> moveSnake rnd s = Some s' \<and> \<not> gameOver s' \<longrightarrow>
            hd (snake s') = wrapStep (direction s) h \<and> inGrid (hd (snake s'))) \<and>
         moveHead RIGHT \<lparr>x = 19, y = 10\<rparr> = \<lparr>x = 0, y = 10\<rparr>"
proof (intro conjI allI impI)
  show "moveHead d h = wrapStep d h" by (rule moveHead_wrapStep[OF assms])
  then show "inGrid (moveHead d h)" by (simp add: inGrid_wrapStep)
  show "moveHead RIGHT \<lparr>x = 19, y = 10\<rparr> = \<lparr>x = 0, y = 10\<rparr>"
    by (simp add: moveHead_def gridSize_def)
next
  fix s rnd s'
  assume a: "snake s \<noteq> [] \<and> hd (snake s) = h \<and> moveSnake rnd s = Some s' \<and> \<not> gameOver s'"
  then obtain rest where s: "snake s = h # rest" by (cases "snake s") auto
  from moveSnake_not_over_snake[OF s] a
  have "hd (snake s') = moveHead (direction s) h" by (auto split: if_splits)
  then show "hd (snake s') = wrapStep (direction s) h" "inGrid (hd (snake s'))"
    by (simp_all add: moveHead_wrapStep[OF assms] inGrid_wrapStep)
qed

theorem new_head_wraps_witness:
  "inGrid \<lparr>x = 19, y = 10\<rparr> \<and>
   moveHead RIGHT \<lparr>x = 19, y = 10\<rparr> = \<lparr>x = 0, y = 10\<rparr> \<and>
   moveHead LEFT \<lparr>x = 0, y = 10\<rparr> = \<lparr>x = 19, y = 10\<rparr> \<and>
   hd (snake (the (moveSnake stuckDraws edgeGame))) = \<lparr>x = 0, y = 10\<rparr>"
proof -
  have a: "inGrid \<lparr>x = 19, y = 10\<rparr>" and b: "inGrid \<lparr>x = 0, y = 10\<rparr>"
    by (simp_all add: inGrid_def gridSize_def)
  have c: "snake edgeGame \<noteq> [] \<and> hd (snake edgeGame) = \<lparr>x = 19, y = 10\<rparr> \<and>
      moveSnake stuckDraws edgeGame = Some (edgeGame\<lparr>snake := [\<lparr>x = 0, y = 10\<rparr>]\<rparr>) \<and>
      \<not> gameOver (edgeGame\<lparr>snake := [\<lparr>x = 0, y = 10\<rparr>]\<rparr>)"
    by (simp add: moveSnake_edgeGame) (simp add: edgeGame_def initialGame_def)
  note right = new_head_wraps[OF a, of RIGHT] and left = new_head_wraps[OF b, of LEFT]
  from right c
  have "hd (snake (edgeGame\<lparr>snake := [\<lparr>x = 0, y = 10\<rparr>]\<rparr>)) =
      wrapStep (direction edgeGame) \<lparr>x = 19, y = 10\<rparr>"
    by blast
  moreover from right have "moveHead RIGHT \<lparr>x = 19, y = 10\<rparr> = \<lparr>x = 0, y = 10\<rparr>"
    by blast
  moreover from left have "moveHead LEFT \<lparr>x = 0, y = 10\<rparr> = wrapStep LEFT \<lparr>x = 0, y = 10\<rparr>"
    by blast
  ultimately show ?thesis
    using a by (simp add: wrapStep_def gridSize_def moveSnake_edgeGame)
qed

text \<open>
  C4. After a tick that does not end in game over the snake is one cell longer when the
  new head is the food cell and as long as before otherwise; and a tick without
  collision and without food does return.
\<close>

theorem snake_length_after_tick:
  assumes "snake s \<noteq> []"
  shows "(\<forall>s'. moveSnake rnd s = Some s' \<and> \<not> gameOver s' \<longrightarrow>
            length (snake s') =
              (if moveHead (direction s) (hd (snake s)) = food s
               then length (snake s) + 1 else length (snake s))) \<and>
         (\<not> gameOver s \<and> \<not> collided (snake s) (moveHead (direction s) (hd (snake s))) \<and>
          moveHead (direction s) (hd (snake s)) \<noteq> food s \<longrightarrow>
            (\<exists>s'. moveSnake rnd s = Some s' \<and> \<not> gameOver s'))"
proof -
  from assms obtain first rest where s: "snake s = first # rest" by (cases "snake s") auto
  show ?thesis
  proof (intro conjI allI impI)
    fix s' assume "moveSnake rnd s = Some s' \<and> \<not> gameOver s'"
    with moveSnake_not_over_snake[OF s, of rnd s']
    show "length (snake s') =
              (if moveHead (direction s) (hd (snake s)) = food s
               then length (snake s) + 1 else length (snake s))"
      using s by (auto split: if_splits)
  next
    assume "\<not> gameOver s \<and> \<not> collided (snake s) (moveHead (direction s) (hd (snake s))) \<and>
          moveHead (direction s) (hd (snake s)) \<noteq> food s"
    with moveSnake_plain[OF s, of rnd] s
    show "\<exists>s'. moveSnake rnd s = Some s' \<and> \<not> gameOver s'" by simp
  qed
qed

theorem snake_length_after_tick_witness:
  "length (snake (the (moveSnake retryDraws eatingGame))) = length (snake eatingGame) + 1 \<and>
   moveHead (direction eatingGame) (hd (snake eatingGame)) = food eatingGame \<and>
   length (snake (the (moveSnake stuckDraws edgeGame))) = length (snake edgeGame) \<and>
   moveHead (direction edgeGame) (hd (snake edgeGame)) \<noteq> food edgeGame"
proof -
  have a: "snake eatingGame \<noteq> []" and b: "snake edgeGame \<noteq> []"
    by (simp_all add: eatingGame_def edgeGame_def initialGame_def)
  have c: "moveHead (direction eatingGame) (hd (snake eatingGame)) = food eatingGame"
    and d: "moveHead (direction edgeGame) (hd (snake edgeGame)) \<noteq> food edgeGame"
    by (simp_all add: eatingGame_def edgeGame_def initialGame_def moveHead_def gridSize_def)
  have e: "\<not> gameOver (the (moveSnake retryDraws eatingGame))"
    and f: "\<not> gameOver (the (moveSnake stuckDraws edgeGame))"
    by (simp_all add: moveSnake_eatingGame moveSnake_edgeGame)
       (simp_all add: eatingGame_def edgeGame_def initialGame_def)
  from snake_length_after_tick[OF a, of retryDraws] c e
  have "length (snake (the (moveSnake retryDraws eatingGame))) = length (snake eatingGame) + 1"
    by (simp add: moveSnake_eatingGame)
  moreover from snake_length_after_tick[OF b, of stuckDraws] d f
  have "length (snake (the (moveSnake stuckDraws edgeGame))) = length (snake edgeGame)"
    by (simp add: moveSnake_edgeGame)
  ultimately show ?thesis using c d by simp
qed

text \<open>
  C10. When the snake has at least two cells and the new head is the cell of the last
  segment, the tick ends the game and leaves the snake as it is, whether or not the food
  is on that cell: the collision test runs on the whole snake before the tail is dropped.
\<close>

theorem tail_cell_collision:
  assumes "2 \<le> length (snake s)"
      and "moveHead (direction s) (hd (snake s)) = last (snake s)"
  shows "moveSnake rnd s = Some (playSound gameOverSound (s\<lparr>gameOver := True, showNameInput := True\<rparr>)) \<and>
         gameOver (the (moveSnake rnd s)) \<and> snake (the (moveSnake rnd s)) = snake s"
proof -
  from assms(1) obtain first rest where s: "snake s = first # rest" and rest: "rest \<noteq> []"
    by (cases "snake s") (auto simp: Suc_le_eq)
  from rest have "last (snake s) \<in> set rest" using s by simp
  with assms(2) s have "collided (snake s) (moveHead (direction s) first)"
    by (simp add: collided_iff)
  from moveSnake_collided[OF s this] show ?thesis by simp
qed

theorem tail_cell_collision_witness:
  "moveHead (direction chasingGame) (hd (snake chasingGame)) = last (snake chasingGame) \<and>
   moveHead (direction chasingGame) (hd (snake chasingGame)) \<noteq> food chasingGame \<and>
   gameOver (the (moveSnake stuckDraws chasingGame)) \<and>
   snake (the (moveSnake stuckDraws chasingGame)) = snake chasingGame"
proof -
  have "2 \<le> length (snake chasingGame)"
    and "moveHead (direction chasingGame) (hd (snake chasingGame)) = last (snake chasingGame)"
    by (simp_all add: chasingGame_def initialGame_def moveHead_def gridSize_def)
  from tail_cell_collision[OF this, of stuckDraws] this(2) show ?thesis
    by (simp add: chasingGame_def initialGame_def)
qed

section \<open>Direction requests\<close>




section \<open>The score store\<close>

text \<open>
  The name in the state comes from the name field and from \<^verbatim>\<open>resetGame\<close> only, so it
  never has more than 15 characters.
\<close>

lemma moveSnake_playerName:
  "moveSnake rnd g = Some g' \<Longrightarrow> playerName g' = playerName g"
  by (auto simp: moveSnake_def Let_def playSound_def split: list.splits if_splits option.splits)

lemma handle_playerName:
  assumes "handle e g = Some g'" and "length (playerName g) \<le> 15" and "withinMaxLength e"
  shows "length (playerName g') \<le> 15"
proof (cases e)
  case (Frame rnd)
  with assms show ?thesis
    by (auto simp: gameLoop_def dest: moveSnake_playerName split: if_splits)
next
  case (PlayAgainButton rnd)
  with assms show ?thesis
    by (auto simp: resetGame_def split: if_splits option.splits)
qed (use assms in \<open>auto simp: handleKeyPress_def handleDirectionChange_def togglePause_def
      endGame_def saveHighScore_def playSound_def Let_def split: if_splits\<close>)

lemma levelEffect_playerName: "playerName (levelEffect g) = playerName g"
  by (simp add: levelEffect_def Let_def playSound_def)

lemma run_playerName:
  assumes "run evs g = Some g'" and "length (playerName g) \<le> 15"
      and "\<forall>e\<in>set evs. withinMaxLength e"
  shows "length (playerName g') \<le> 15"
  using assms
proof (induction evs arbitrary: g)
  case Nil
  then show ?case by simp
next
  case (Cons e evs)
  from Cons.prems(1) obtain g1 where g1: "step e g = Some g1" and rest: "run evs g1 = Some g'"
    by (auto split: option.splits)
  from g1 obtain g0 where g0: "handle e g = Some g0" and eff: "g1 = levelEffect g0"
    by (auto simp: step_def)
  from Cons.prems(3) have "withinMaxLength e" by simp
  from handle_playerName[OF g0 Cons.prems(2) this] eff
  have "length (playerName g1) \<le> 15" by (simp add: levelEffect_playerName)
  moreover from Cons.prems(3) have "\<forall>e\<in>set evs. withinMaxLength e" by simp
  ultimately show ?case using Cons.IH[OF rest] by blast
qed

text \<open>
  C7. \<^verbatim>\<open>saveHighScore\<close> trims the name and takes Anonymous for a blank one. The
  name it stores has at most 15 characters for every name the name field can hold, that
  is for every name of at most 15 characters. The entry is put behind the old ones, the list is sorted by
  descending score with entries of equal score in their former order, cut to its first
  five entries, and stored. With five old entries, a new score below all of them does
  not appear and the old entries stay; a new score above one of them appears, and one
  old entry whose score is at most every score that stays is dropped.
\<close>

theorem saveHighScore_keeps_top_five:
  "name (newEntry g) = (if trim (playerName g) = [] then ''Anonymous'' else trim (playerName g)) \<and>
   scoreEntry.score (newEntry g) = game.score g \<and>
   (\<exists>l r. playerName g = l @ trim (playerName g) @ r \<and>
          list_all isWhiteSpace l \<and> list_all isWhiteSpace r \<and>
          (trim (playerName g) \<noteq> [] \<longrightarrow>
             \<not> isWhiteSpace (hd (trim (playerName g))) \<and>
             \<not> isWhiteSpace (last (trim (playerName g))))) \<and>
   (length (playerName g) \<le> 15 \<longrightarrow> length (name (newEntry g)) \<le> 15) \<and>
   highScores (saveHighScore g) = take 5 (ranked g) \<and>
   mset (ranked g) = mset (highScores g) + {#newEntry g#} \<and>
   sorted_wrt (\<lambda>a b. scoreEntry.score b \<le> scoreEntry.score a) (ranked g) \<and>
   (\<forall>v. filter (\<lambda>a. scoreEntry.score a = v) (ranked g) =
        filter (\<lambda>a. scoreEntry.score a = v) (highScores g @ [newEntry g])) \<and>
   length (highScores (saveHighScore g)) \<le> 5 \<and>
   sorted_wrt (\<lambda>a b. scoreEntry.score b \<le> scoreEntry.score a) (highScores (saveHighScore g)) \<and>
   storage (saveHighScore g) = Some (highScores (saveHighScore g)) \<and>
   (length (highScores g) = 5 \<and> (\<forall>a\<in>set (highScores g). game.score g < scoreEntry.score a) \<longrightarrow>
      newEntry g \<notin> set (highScores (saveHighScore g)) \<and>
      mset (highScores (saveHighScore g)) = mset (highScores g)) \<and>
   (length (highScores g) = 5 \<and> (\<exists>a\<in>set (highScores g). scoreEntry.score a < game.score g) \<longrightarrow>
      newEntry g \<in> set (highScores (saveHighScore g)) \<and>
      (\<exists>ev\<in>set (highScores g).
         mset (highScores (saveHighScore g)) + {#ev#} = mset (highScores g) + {#newEntry g#} \<and>
         (\<forall>a\<in>set (highScores (saveHighScore g)). scoreEntry.score ev \<le> scoreEntry.score a)))"
proof (intro conjI impI allI)
  show "name (newEntry g) = (if trim (playerName g) = [] then ''Anonymous'' else trim (playerName g))"
    and "scoreEntry.score (newEntry g) = game.score g"
    by (simp_all add: newEntry_def)
  show "\<exists>l r. playerName g = l @ trim (playerName g) @ r \<and>
          list_all isWhiteSpace l \<and> list_all isWhiteSpace r \<and>
          (trim (playerName g) \<noteq> [] \<longrightarrow>
             \<not> isWhiteSpace (hd (trim (playerName g))) \<and>
             \<not> isWhiteSpace (last (trim (playerName g))))"
    by (rule trim_sandwich)
  show "highScores (saveHighScore g) = take 5 (ranked g)"
    and "storage (saveHighScore g) = Some (highScores (saveHighScore g))"
    and "length (highScores (saveHighScore g)) \<le> 5"
    by (simp_all add: saveHighScore_fields)
  show "mset (ranked g) = mset (highScores g) + {#newEntry g#}"
    and "sorted_wrt (\<lambda>a b. scoreEntry.score b \<le> scoreEntry.score a) (ranked g)"
    by (rule ranked_facts)+
  then show "sorted_wrt (\<lambda>a b. scoreEntry.score b \<le> scoreEntry.score a) (highScores (saveHighScore g))"
    by (simp only: saveHighScore_fields sorted_take)
next
  assume "length (playerName g) \<le> 15"
  with length_trim[of "playerName g"] show "length (name (newEntry g)) \<le> 15"
    by (simp add: newEntry_def)
next
  fix v
  show "filter (\<lambda>a. scoreEntry.score a = v) (ranked g) =
        filter (\<lambda>a. scoreEntry.score a = v) (highScores g @ [newEntry g])"
    unfolding ranked_def by (rule stable_jsSort)
next
  assume a: "length (highScores g) = 5 \<and> (\<forall>a\<in>set (highScores g). game.score g < scoreEntry.score a)"
  then have "\<forall>a\<in>set (highScores g). scoreEntry.score (newEntry g) < scoreEntry.score a"
    by (simp add: newEntry_def)
  from lower_score_dropped[OF ranked_facts(1,2) this] a
  show "newEntry g \<notin> set (highScores (saveHighScore g))"
    and "mset (highScores (saveHighScore g)) = mset (highScores g)"
    by (simp_all add: saveHighScore_fields take_five_of_six)
next
  assume a: "length (highScores g) = 5 \<and> (\<exists>a\<in>set (highScores g). scoreEntry.score a < game.score g)"
  then have "\<exists>a\<in>set (highScores g). scoreEntry.score a < scoreEntry.score (newEntry g)"
    by (simp add: newEntry_def)
  from higher_score_evicts[OF ranked_facts(1,2) this] a
  show "newEntry g \<in> set (highScores (saveHighScore g))"
    and "\<exists>ev\<in>set (highScores g).
         mset (highScores (saveHighScore g)) + {#ev#} = mset (highScores g) + {#newEntry g#} \<and>
         (\<forall>a\<in>set (highScores (saveHighScore g)). scoreEntry.score ev \<le> scoreEntry.score a)"
    by (simp_all add: saveHighScore_fields take_five_of_six)
qed

theorem saveHighScore_keeps_top_five_witness:
  "highScores (saveHighScore (overGame '' Flo '' 7)) =
     [\<lparr>name = ''Ann'', score = 9\<rparr>, \<lparr>name = ''Bob'', score = 7\<rparr>, \<lparr>name = ''Cy'', score = 7\<rparr>,
      \<lparr>name = ''Flo'', score = 7\<rparr>, \<lparr>name = ''Dee'', score = 4\<rparr>] \<and>
   newEntry (overGame '' Flo '' 7) \<in> set (highScores (saveHighScore (overGame '' Flo '' 7))) \<and>
   length (name (newEntry (overGame '' Flo '' 7))) \<le> 15 \<and>
   highScores (saveHighScore (overGame ''   '' 1)) = fullTable \<and>
   newEntry (overGame ''   '' 1) = \<lparr>name = ''Anonymous'', score = 1\<rparr> \<and>
   newEntry (overGame ''   '' 1) \<notin> set (highScores (saveHighScore (overGame ''   '' 1)))"
proof -
  note flo = saveHighScore_keeps_top_five[of "overGame '' Flo '' 7"]
    and blank = saveHighScore_keeps_top_five[of "overGame ''   '' 1"]
  have five: "length (highScores (overGame '' Flo '' 7)) = 5 \<and>
      (\<exists>a\<in>set (highScores (overGame '' Flo '' 7)). scoreEntry.score a < game.score (overGame '' Flo '' 7))"
    and six: "length (highScores (overGame ''   '' 1)) = 5 \<and>
      (\<forall>a\<in>set (highScores (overGame ''   '' 1)). game.score (overGame ''   '' 1) < scoreEntry.score a)"
    and short: "length (playerName (overGame '' Flo '' 7)) \<le> 15"
    by (simp_all add: overGame_def initialGame_def fullTable_def)
  from flo have "highScores (saveHighScore (overGame '' Flo '' 7)) = take 5 (ranked (overGame '' Flo '' 7))"
    by blast
  then have a: "highScores (saveHighScore (overGame '' Flo '' 7)) =
     [\<lparr>name = ''Ann'', score = 9\<rparr>, \<lparr>name = ''Bob'', score = 7\<rparr>, \<lparr>name = ''Cy'', score = 7\<rparr>,
      \<lparr>name = ''Flo'', score = 7\<rparr>, \<lparr>name = ''Dee'', score = 4\<rparr>]"
    by (simp add: ranked_samples)
  from flo five have b: "newEntry (overGame '' Flo '' 7) \<in> set (highScores (saveHighScore (overGame '' Flo '' 7)))"
    by blast
  from flo short have c: "length (name (newEntry (overGame '' Flo '' 7))) \<le> 15" by blast
  from blank have "highScores (saveHighScore (overGame ''   '' 1)) = take 5 (ranked (overGame ''   '' 1))"
    by blast
  then have d: "highScores (saveHighScore (overGame ''   '' 1)) = fullTable"
    by (simp add: ranked_samples fullTable_def)
  from blank six have e: "newEntry (overGame ''   '' 1) \<notin> set (highScores (saveHighScore (overGame ''   '' 1)))"
    by blast
  have f: "newEntry (overGame ''   '' 1) = \<lparr>name = ''Anonymous'', score = 1\<rparr>"
    by (simp add: newEntry_def overGame_def initialGame_def trim_samples)
  from a b c d e f show ?thesis by blast
qed

text \<open>
  C8. Loading yields the stored list when the persisted value is an array whose entries
  all have a name and a numeric score; in every other case (nothing stored, an empty
  text, a text that does not parse, a value that is not an array, an entry that is not
  such an entry) it yields the empty list. The exception of \<^verbatim>\<open>JSON.parse\<close> never
  leaves the effect.
\<close>

theorem load_yields_valid_list_or_empty:
  "(\<forall>items. storedList JSONparse savedScores = Some items \<longrightarrow>
      loadHighScores JSONparse savedScores = (items, savedScores)) \<and>
   (storedList JSONparse savedScores = None \<longrightarrow>
      loadHighScores JSONparse savedScores =
        ([], if savedScores = None \<or> savedScores = Some [] then savedScores else None)) \<and>
   (\<forall>e. loadBody JSONparse savedScores = Inl e \<longrightarrow>
      storedList JSONparse savedScores = None \<and>
      loadHighScores JSONparse savedScores = ([], None))"
proof (intro conjI allI impI)
  fix items assume "storedList JSONparse savedScores = Some items"
  then show "loadHighScores JSONparse savedScores = (items, savedScores)"
    by (auto simp: storedList_def loadHighScores_def loadBody_def list_all_validItem
        split: option.splits if_splits json.splits)
next
  assume "storedList JSONparse savedScores = None"
  then show "loadHighScores JSONparse savedScores =
        ([], if savedScores = None \<or> savedScores = Some [] then savedScores else None)"
    by (auto simp: storedList_def loadHighScores_def loadBody_def list_all_validItem
        split: option.splits if_splits json.splits)
next
  fix e assume e: "loadBody JSONparse savedScores = Inl e"
  then show "storedList JSONparse savedScores = None"
    by (auto simp: storedList_def loadBody_def split: option.splits if_splits json.splits)
  from e show "loadHighScores JSONparse savedScores = ([], None)"
    by (simp add: loadHighScores_def)
qed

theorem load_yields_valid_list_or_empty_witness:
  "loadHighScores sampleParse (Some annText) =
     ([JObject [(''name'', JString ''Ann''), (''score'', JNumber 7)]], Some annText) \<and>
   loadHighScores sampleParse (Some ''[{}]'') = ([], None) \<and>
   loadHighScores sampleParse (Some ''7'') = ([], None) \<and>
   loadHighScores sampleParse (Some ''[1,'') = ([], None) \<and>
   loadBody sampleParse (Some ''[1,'') = Inl SyntaxError \<and>
   loadHighScores sampleParse None = ([], None)"
proof -
  have a: "storedList sampleParse (Some annText) =
      Some [JObject [(''name'', JString ''Ann''), (''score'', JNumber 7)]]"
    and b: "storedList sampleParse (Some ''[{}]'') = None"
    and c: "storedList sampleParse (Some ''7'') = None"
    and d: "loadBody sampleParse (Some ''[1,'') = Inl SyntaxError"
    and e: "storedList sampleParse None = None"
    by (simp_all add: storedList_def sampleParse_def loadBody_def annText_distinct)
  from a b c d e
    load_yields_valid_list_or_empty[of sampleParse "Some annText"]
    load_yields_valid_list_or_empty[of sampleParse "Some ''[{}]''"]
    load_yields_valid_list_or_empty[of sampleParse "Some ''7''"]
    load_yields_valid_list_or_empty[of sampleParse "Some ''[1,''"]
    load_yields_valid_list_or_empty[of sampleParse None]
  show ?thesis by simp
qed

section \<open>Speed\<close>

text \<open>
  C9. On the levels 1 to 10 \<^verbatim>\<open>calculateSpeed\<close> is the formula of the specification;
  it is 165 at level 1 and 70 at level 10 and does not increase with the level. The
  value at each level is also the one that rounding gives when the number rounded is off
  by up to one hundredth, so the rounding error of floating-point arithmetic does not
  change it.
\<close>

theorem calculateSpeed_interpolates:
  "(1 \<le> lvl \<and> lvl \<le> 10 \<longrightarrow> calculateSpeed lvl = speedSpec lvl) \<and>
   calculateSpeed 1 = 165 \<and> calculateSpeed 10 = 70 \<and>
   (\<forall>a b. 1 \<le> a \<and> a \<le> b \<and> b \<le> 10 \<longrightarrow> calculateSpeed b \<le> calculateSpeed a) \<and>
   map calculateSpeed [1, 2, 3, 4, 5, 6, 7, 8, 9, 10] =
     [165, 154, 144, 133, 123, 112, 102, 91, 81, 70] \<and>
   (\<forall>e. 1 \<le> lvl \<and> lvl \<le> 10 \<and> \<bar>e\<bar> \<le> 1 / 100 \<longrightarrow>
      jsRound (real_of_int initialSpeed -
               (real_of_int lvl - 1) / 9 * real_of_int (initialSpeed - 70) + e) = calculateSpeed lvl)"
proof (intro conjI allI impI)
  show "calculateSpeed lvl = speedSpec lvl" by (rule calculateSpeed_speedSpec)
  show "calculateSpeed 1 = 165" "calculateSpeed 10 = 70" by (simp_all add: calculateSpeed_div)
  show "map calculateSpeed [1, 2, 3, 4, 5, 6, 7, 8, 9, 10] =
     [165, 154, 144, 133, 123, 112, 102, 91, 81, 70]"
    by (rule calculateSpeed_table)
next
  fix a b :: int assume "1 \<le> a \<and> a \<le> b \<and> b \<le> 10"
  then show "calculateSpeed b \<le> calculateSpeed a" by (simp add: calculateSpeed_antimono)
next
  fix e :: real assume "1 \<le> lvl \<and> lvl \<le> 10 \<and> \<bar>e\<bar> \<le> 1 / 100"
  then show "jsRound (real_of_int initialSpeed -
               (real_of_int lvl - 1) / 9 * real_of_int (initialSpeed - 70) + e) = calculateSpeed lvl"
    using calculateSpeed_stable[of lvl e] by blast
qed

theorem calculateSpeed_interpolates_witness:
  "calculateSpeed 5 = speedSpec 5 \<and> speedSpec 5 = 123 \<and> calculateSpeed 7 \<le> calculateSpeed 3 \<and>
   jsRound (real_of_int initialSpeed - (real_of_int 5 - 1) / 9 * real_of_int (initialSpeed - 70) + 1 / 1000) = 123"
proof -
  note t = calculateSpeed_interpolates[of 5]
  from t have "calculateSpeed 5 = speedSpec 5" by simp
  moreover from t have "calculateSpeed 7 \<le> calculateSpeed 3" by simp
  moreover from t have "jsRound (real_of_int initialSpeed -
      (real_of_int 5 - 1) / 9 * real_of_int (initialSpeed - 70) + 1 / 1000) = calculateSpeed 5"
    by (elim conjE allE[of _ "1 / 1000"]) simp
  moreover have "calculateSpeed 5 = 123" by (simp add: calculateSpeed_div)
  ultimately show ?thesis by simp
qed

end
